theory Spec2Isabelle
  imports Main
begin

section \<open>The secure unlock hook (SecureUnlockProvider.tsx)\<close>

text \<open>
  The hook \<^verbatim>\<open>_useSecureUnlockState\<close> keeps eight React state variables and, on every
  render, returns an object whose shape depends on the variable \<^verbatim>\<open>state\<close>. The
  operations in that object are closures: they read the variables as they were at the
  render that created them, and they write through the setters.

  The embedding keeps the two apart. The variables are a record; each operation is a
  function that takes the values its closure captured as explicit arguments, the answers
  of the platform store it awaits, and the current variables, and returns its result, the
  updated variables and the store calls it made. Setters called in sequence are record
  updates in sequence. An operation runs without interleaving with another one.

  The version argument that every store call receives is the store's own
  \<^verbatim>\<open>getWalletKeyVersion()\<close> handed back to it; it is left out of the calls.
  \<^verbatim>\<open>biometricsUnlockAttempts\<close> is a JavaScript number that is only ever incremented
  from 0, a natural number here.
\<close>

datatype SecureUnlockState =
  Initializing | NotConfigured | Locked | AcquiredWalletKey | Unlocked

datatype SecureUnlockMethod = Pin | Biometrics

text \<open>What an awaited store call can throw: a \<^verbatim>\<open>KeychainError\<close> with its reason, or
  anything else.\<close>

datatype store_error = KeychainError (reason: string) | OtherError string

datatype store_call =
  GetSalt
  | CanUseBiometryBackedWalletKey
  | CreateAndStoreSalt bool
  | GetWalletKeyUsingPin string
  | GetWalletKeyUsingBiometrics
  | StoreWalletKey string

record 'c unlock_vars =
  state :: SecureUnlockState
  walletKey :: "string option"
  canTryUnlockingUsingBiometrics :: bool
  biometricsUnlockAttempts :: nat
  canUseBiometrics :: "bool option"
  unlockMethod :: "SecureUnlockMethod option"
  ctxt :: "'c option"
  isUnlocking :: bool

text \<open>The arguments of the eight \<^verbatim>\<open>useState\<close> calls.\<close>

definition initial_vars :: "'c unlock_vars" where
  "initial_vars =
     \<lparr>state = Initializing, walletKey = None, canTryUnlockingUsingBiometrics = True,
      biometricsUnlockAttempts = 0, canUseBiometrics = None, unlockMethod = None,
      ctxt = None, isUnlocking = False\<rparr>"

text \<open>JavaScript truthiness of a \<^verbatim>\<open>string | null | undefined\<close>: absent and the empty
  string are falsy.\<close>

definition truthy :: "string option \<Rightarrow> bool" where
  "truthy v = (case v of None \<Rightarrow> False | Some k \<Rightarrow> k \<noteq> [])"

record ('r, 'c) outcome =
  result :: "store_error + 'r"
  vars :: "'c unlock_vars"
  calls :: "store_call list"

subsection \<open>The operations\<close>

text \<open>The query function of \<^verbatim>\<open>useQuery\<close>; it is enabled while \<^verbatim>\<open>state\<close> is
  \<^verbatim>\<open>'initializing'\<close>. A store call that throws ends it before any setter runs.\<close>

definition queryFn ::
  "store_error + string option \<Rightarrow> store_error + bool \<Rightarrow> 'c unlock_vars
     \<Rightarrow> (string option, 'c) outcome" where
  "queryFn saltAnswer canAnswer s =
     (case saltAnswer of
        Inl e \<Rightarrow> \<lparr>result = Inl e, vars = s, calls = [GetSalt]\<rparr>
      | Inr salt \<Rightarrow>
          (case canAnswer of
             Inl e \<Rightarrow>
               \<lparr>result = Inl e, vars = s, calls = [GetSalt, CanUseBiometryBackedWalletKey]\<rparr>
           | Inr can \<Rightarrow>
               \<lparr>result = Inr salt,
                vars = s\<lparr>canUseBiometrics := Some can,
                         canTryUnlockingUsingBiometrics := can,
                         state := (if truthy salt then Locked else NotConfigured)\<rparr>,
                calls = [GetSalt, CanUseBiometryBackedWalletKey]\<rparr>))"

definition reinitialize :: "'c unlock_vars \<Rightarrow> 'c unlock_vars" where
  "reinitialize s =
     s\<lparr>state := Initializing, walletKey := None, canTryUnlockingUsingBiometrics := True,
       biometricsUnlockAttempts := 0, canUseBiometrics := None, unlockMethod := None,
       ctxt := None, isUnlocking := False\<rparr>"

text \<open>\<^verbatim>\<open>setWalletKeyInvalid\<close> reads the \<^verbatim>\<open>unlockMethod\<close> of its render.\<close>

definition setWalletKeyInvalid ::
  "SecureUnlockMethod \<Rightarrow> 'c unlock_vars \<Rightarrow> 'c unlock_vars" where
  "setWalletKeyInvalid method s =
     (let s1 = (if method = Biometrics
                then s\<lparr>canTryUnlockingUsingBiometrics := False\<rparr> else s)
      in s1\<lparr>state := Locked, walletKey := None, unlockMethod := None\<rparr>)"

text \<open>\<^verbatim>\<open>setWalletKeyValid\<close> reads the \<^verbatim>\<open>walletKey\<close> and \<^verbatim>\<open>canUseBiometrics\<close> of its
  render. Both setters run before the store is awaited; \<^verbatim>\<open>undefined\<close> is falsy.\<close>

definition setWalletKeyValid ::
  "string \<Rightarrow> bool option \<Rightarrow> 'c \<Rightarrow> bool \<Rightarrow> store_error + unit \<Rightarrow> 'c unlock_vars
     \<Rightarrow> (unit, 'c) outcome" where
  "setWalletKeyValid key canUse context enableBiometrics storeAnswer s =
     (let s1 = s\<lparr>ctxt := Some context\<rparr>;
          s2 = s1\<lparr>state := Unlocked\<rparr>
      in if canUse = Some True \<and> enableBiometrics
         then \<lparr>result = storeAnswer, vars = s2, calls = [StoreWalletKey key]\<rparr>
         else \<lparr>result = Inr (), vars = s2, calls = []\<rparr>)"

definition lock :: "'c unlock_vars \<Rightarrow> 'c unlock_vars" where
  "lock s = s\<lparr>state := Locked, walletKey := None, unlockMethod := None, ctxt := None\<rparr>"

definition isUserCancelled :: "store_error \<Rightarrow> bool" where
  "isUserCancelled e =
     (case e of KeychainError r \<Rightarrow> r = ''userCancelled'' | OtherError _ \<Rightarrow> False)"

text \<open>\<^verbatim>\<open>tryUnlockingUsingBiometrics\<close> reads the \<^verbatim>\<open>canTryUnlockingUsingBiometrics\<close> and
  the \<^verbatim>\<open>biometricsUnlockAttempts\<close> of its render (the arguments \<open>canTry\<close> and
  \<open>attempts\<close>). The increment goes through the setter's updater function and acts on the
  current variables; the test in the \<^verbatim>\<open>catch\<close> block reads the captured constant. The
  \<^verbatim>\<open>catch\<close> block swallows every error, and \<^verbatim>\<open>finally\<close> runs on both paths.\<close>

definition tryUnlockingUsingBiometrics ::
  "bool \<Rightarrow> nat \<Rightarrow> store_error + string option \<Rightarrow> 'c unlock_vars
     \<Rightarrow> (string option, 'c) outcome" where
  "tryUnlockingUsingBiometrics canTry attempts answer s =
     (if \<not> canTry then \<lparr>result = Inr None, vars = s, calls = []\<rparr>
      else
        let s1 = s\<lparr>isUnlocking := True\<rparr>;
            s2 = s1\<lparr>biometricsUnlockAttempts := biometricsUnlockAttempts s1 + 1\<rparr>
        in case answer of
             Inr key \<Rightarrow>
               let s3 = (if truthy key
                         then s2\<lparr>walletKey := key, unlockMethod := Some Biometrics,
                                 state := AcquiredWalletKey\<rparr>
                         else s2)
               in \<lparr>result = Inr key, vars = s3\<lparr>isUnlocking := False\<rparr>,
                   calls = [GetWalletKeyUsingBiometrics]\<rparr>
           | Inl e \<Rightarrow>
               let s3 = (if isUserCancelled e
                         then s2\<lparr>canTryUnlockingUsingBiometrics := False\<rparr>
                         else if attempts > 3
                         then s2\<lparr>canTryUnlockingUsingBiometrics := False\<rparr>
                         else s2)
               in \<lparr>result = Inr None, vars = s3\<lparr>isUnlocking := False\<rparr>,
                   calls = [GetWalletKeyUsingBiometrics]\<rparr>)"

definition unlockUsingPin ::
  "string \<Rightarrow> store_error + string \<Rightarrow> 'c unlock_vars \<Rightarrow> (string, 'c) outcome" where
  "unlockUsingPin pin answer s =
     (let s1 = s\<lparr>isUnlocking := True\<rparr>
      in case answer of
           Inr key \<Rightarrow>
             let s2 = s1\<lparr>walletKey := Some key, unlockMethod := Some Pin,
                         state := AcquiredWalletKey\<rparr>
             in \<lparr>result = Inr key, vars = s2\<lparr>isUnlocking := False\<rparr>,
                 calls = [GetWalletKeyUsingPin pin]\<rparr>
         | Inl e \<Rightarrow>
             \<lparr>result = Inl e, vars = s1\<lparr>isUnlocking := False\<rparr>,
              calls = [GetWalletKeyUsingPin pin]\<rparr>)"

definition setupPin ::
  "string \<Rightarrow> store_error + unit \<Rightarrow> store_error + string \<Rightarrow> 'c unlock_vars
     \<Rightarrow> (string, 'c) outcome" where
  "setupPin pin saltAnswer keyAnswer s =
     (case saltAnswer of
        Inl e \<Rightarrow> \<lparr>result = Inl e, vars = s, calls = [CreateAndStoreSalt True]\<rparr>
      | Inr _ \<Rightarrow>
          (case keyAnswer of
             Inl e \<Rightarrow>
               \<lparr>result = Inl e, vars = s,
                calls = [CreateAndStoreSalt True, GetWalletKeyUsingPin pin]\<rparr>
           | Inr key \<Rightarrow>
               \<lparr>result = Inr key,
                vars = s\<lparr>walletKey := Some key, unlockMethod := Some Pin,
                         state := AcquiredWalletKey\<rparr>,
                calls = [CreateAndStoreSalt True, GetWalletKeyUsingPin pin]\<rparr>))"

text \<open>\<open>setupPin\<close> is the operation \<^verbatim>\<open>setup\<close> of the not-configured shape.\<close>

subsection \<open>What a render returns\<close>

text \<open>The five shapes of \<^verbatim>\<open>SecureUnlockReturn\<close> with their data fields. A render
  throws when \<^verbatim>\<open>state\<close> promises a value that is falsy; a context is an object and so
  truthy whenever it is defined.\<close>

datatype 'c SecureUnlockReturn =
  ReturnInitializing
  | ReturnNotConfigured
  | ReturnLocked bool bool
  | ReturnWalletKeyAcquired string SecureUnlockMethod
  | ReturnUnlocked SecureUnlockMethod 'c

definition useSecureUnlockState :: "'c unlock_vars \<Rightarrow> string + 'c SecureUnlockReturn" where
  "useSecureUnlockState s =
     (case state s of
        AcquiredWalletKey \<Rightarrow>
          (case (walletKey s, unlockMethod s) of
             (Some key, Some method) \<Rightarrow>
               if key = [] then Inl ''Missing walletKey or unlockMethod''
               else Inr (ReturnWalletKeyAcquired key method)
           | _ \<Rightarrow> Inl ''Missing walletKey or unlockMethod'')
      | Unlocked \<Rightarrow>
          (case (walletKey s, unlockMethod s, ctxt s) of
             (Some key, Some method, Some context) \<Rightarrow>
               if key = [] then Inl ''Missing walletKey, unlockMethod or context''
               else Inr (ReturnUnlocked method context)
           | _ \<Rightarrow> Inl ''Missing walletKey, unlockMethod or context'')
      | Locked \<Rightarrow>
          Inr (ReturnLocked (isUnlocking s) (canTryUnlockingUsingBiometrics s))
      | NotConfigured \<Rightarrow> Inr ReturnNotConfigured
      | Initializing \<Rightarrow> Inr ReturnInitializing)"

text \<open>The operations each shape carries (the function-valued keys of the returned
  object).\<close>

datatype op_name =
  Op_setup | Op_reinitialize | Op_tryUnlockingUsingBiometrics | Op_unlockUsingPin
  | Op_setWalletKeyValid | Op_setWalletKeyInvalid | Op_lock

fun operations :: "'c SecureUnlockReturn \<Rightarrow> op_name list" where
  "operations ReturnInitializing = []"
| "operations ReturnNotConfigured = [Op_setup, Op_reinitialize]"
| "operations (ReturnLocked _ _) =
     [Op_reinitialize, Op_tryUnlockingUsingBiometrics, Op_unlockUsingPin]"
| "operations (ReturnWalletKeyAcquired _ _) =
     [Op_reinitialize, Op_setWalletKeyInvalid, Op_setWalletKeyValid]"
| "operations (ReturnUnlocked _ _) = [Op_reinitialize, Op_lock]"

subsection \<open>Sequences of calls\<close>

text \<open>One thing that happens to the hook: the query function completing, or a consumer
  calling an operation of the latest render, together with what the store answers. A call
  the latest render does not offer changes nothing, and neither does anything after a
  render that threw.\<close>

datatype 'c event =
  Initialize "store_error + string option" "store_error + bool"
  | Setup string "store_error + unit" "store_error + string"
  | UnlockUsingPin string "store_error + string"
  | TryUnlockingUsingBiometrics "store_error + string option"
  | SetWalletKeyValid 'c bool "store_error + unit"
  | SetWalletKeyInvalid
  | Lock
  | Reinitialize

definition quiet :: "'c unlock_vars \<Rightarrow> 'c unlock_vars \<times> store_call list" where
  "quiet s = (s, [])"

definition effects :: "('r, 'c) outcome \<Rightarrow> 'c unlock_vars \<times> store_call list" where
  "effects out = (vars out, calls out)"

fun dispatch ::
  "'c SecureUnlockReturn \<Rightarrow> 'c event \<Rightarrow> 'c unlock_vars \<Rightarrow> 'c unlock_vars \<times> store_call list" where
  "dispatch ReturnInitializing (Initialize a b) s = effects (queryFn a b s)"
| "dispatch ReturnNotConfigured (Setup pin a b) s = effects (setupPin pin a b s)"
| "dispatch ReturnNotConfigured Reinitialize s = quiet (reinitialize s)"
| "dispatch (ReturnLocked _ _) (UnlockUsingPin pin a) s = effects (unlockUsingPin pin a s)"
| "dispatch (ReturnLocked _ _) (TryUnlockingUsingBiometrics a) s =
     effects (tryUnlockingUsingBiometrics
                (canTryUnlockingUsingBiometrics s) (biometricsUnlockAttempts s) a s)"
| "dispatch (ReturnLocked _ _) Reinitialize s = quiet (reinitialize s)"
| "dispatch (ReturnWalletKeyAcquired key method) (SetWalletKeyValid c enable a) s =
     effects (setWalletKeyValid key (canUseBiometrics s) c enable a s)"
| "dispatch (ReturnWalletKeyAcquired key method) SetWalletKeyInvalid s =
     quiet (setWalletKeyInvalid method s)"
| "dispatch (ReturnWalletKeyAcquired _ _) Reinitialize s = quiet (reinitialize s)"
| "dispatch (ReturnUnlocked _ _) Lock s = quiet (lock s)"
| "dispatch (ReturnUnlocked _ _) Reinitialize s = quiet (reinitialize s)"
| "dispatch _ _ s = quiet s"

definition step :: "'c event \<Rightarrow> 'c unlock_vars \<Rightarrow> 'c unlock_vars \<times> store_call list" where
  "step ev s =
     (case useSecureUnlockState s of
        Inl _ \<Rightarrow> quiet s
      | Inr view \<Rightarrow> dispatch view ev s)"

fun run :: "'c event list \<Rightarrow> 'c unlock_vars \<Rightarrow> 'c unlock_vars" where
  "run [] s = s"
| "run (ev # evs) s = run evs (fst (step ev s))"

section \<open>The credential issuance flow (ReceivePidUseCaseCFlow)\<close>

text \<open>
  \<^verbatim>\<open>ReceivePidUseCaseCFlow\<close> extends \<^verbatim>\<open>ReceivePidUseCaseFlow\<close>. The base class, with the
  flow's state type, its fields and the methods \<^verbatim>\<open>assertState\<close> and \<^verbatim>\<open>handleError\<close>,
  is not among the sources; \<^verbatim>\<open>retrieveCredentials\<close> is. The protocol client
  \<^verbatim>\<open>receiveCredentialFromOpenId4VciOffer\<close> is an external service: a parameter of the
  model, a function from the request to what it throws or returns. Of the request, the
  agent and the trusted schemes are constants of the application and left out.
\<close>

text \<open>What can be thrown inside \<^verbatim>\<open>retrieveCredentials\<close>: a
  \<^verbatim>\<open>BiometricAuthenticationError\<close>, or any other error with its message.\<close>

datatype flow_error = BiometricAuthenticationError | JsError string

text \<open>Modelled from the spec: the state type of the base class ReceivePidUseCaseFlow,
  which is missing from the sources. The spec's \<open>IssuanceFlowState\<close>;
  \<open>AwaitingUserPresence\<close> is the source's \<^verbatim>\<open>'id-card-auth'\<close> and \<open>RetrievingCredential\<close>
  its \<^verbatim>\<open>'retrieve-credential'\<close>.\<close>

datatype IssuanceFlowState =
  NotStarted | Authorizing | AwaitingUserPresence | RetrievingCredential | Error | Done

record offered_credential =
  offered_id :: string

record resolved_offer =
  offeredCredentials :: "offered_credential list"

record credential_record =
  recordType :: string
  recordId :: string

text \<open>Modelled from the spec: the fields of the base class ReceivePidUseCaseFlow that
  \<^verbatim>\<open>retrieveCredentials\<close> reads (the class is missing from the sources). The access
  token is opaque, an object when present.\<close>

record 't flow =
  currentState :: IssuanceFlowState
  accessToken :: "'t option"
  resolvedCredentialOffer :: resolved_offer

record 't credential_request =
  req_accessToken :: 't
  req_resolvedCredentialOffer :: resolved_offer
  req_credentialConfigurationIdsToRequest :: "string list"
  req_clientId :: string

text \<open>Modelled from the spec: assertState of the base class ReceivePidUseCaseFlow, which
  is missing from the sources. ``Contract check: fails fast if the flow is not in the
  expected phase before performing a phase-specific action.''\<close>

definition assertState :: "IssuanceFlowState \<Rightarrow> 't flow \<Rightarrow> flow_error + unit" where
  "assertState expectedState fl =
     (if currentState fl = expectedState then Inr ()
      else Inl (JsError ''Unexpected flow state''))"

text \<open>Modelled from the spec: handleError of the base class ReceivePidUseCaseFlow, which
  is missing from the sources. ``Centralizes transition to the Error terminal state for
  non-recoverable failures; does not transition state for recoverable failures''; of the
  failures of this flow the spec calls the biometric authentication error recoverable
  and every other one fatal.\<close>

definition handleError :: "flow_error \<Rightarrow> 't flow \<Rightarrow> 't flow" where
  "handleError e fl =
     (if e = BiometricAuthenticationError then fl else fl\<lparr>currentState := Error\<rparr>)"

text \<open>The loop over the returned records: the first record of an unexpected type
  throws.\<close>

definition unexpected_type :: "credential_record \<Rightarrow> bool" where
  "unexpected_type r = (recordType r \<noteq> ''SdJwtVcRecord'' \<and> recordType r \<noteq> ''MdocRecord'')"

fun check_record_types :: "credential_record list \<Rightarrow> flow_error + unit" where
  "check_record_types [] = Inr ()"
| "check_record_types (r # rs) =
     (if unexpected_type r then Inl (JsError (''Unexpected record type '' @ recordType r))
      else check_record_types rs)"

text \<open>The \<^verbatim>\<open>catch\<close> block of \<^verbatim>\<open>retrieveCredentials\<close>.\<close>

definition retrieveCredentials_catch ::
  "flow_error \<Rightarrow> 't flow \<Rightarrow> (flow_error + credential_record list) \<times> 't flow" where
  "retrieveCredentials_catch e fl =
     (if e = BiometricAuthenticationError then (Inl e, fl)
      else (Inl e, handleError e fl))"

text \<open>\<^verbatim>\<open>retrieveCredentials\<close>; \<open>CLIENT_ID\<close> is the static constant of the base class.
  Everything runs inside the \<^verbatim>\<open>try\<close>, the state assertion too.\<close>

definition retrieveCredentials ::
  "string \<Rightarrow> ('t credential_request \<Rightarrow> flow_error + credential_record list) \<Rightarrow> 't flow
     \<Rightarrow> (flow_error + credential_record list) \<times> 't flow" where
  "retrieveCredentials CLIENT_ID receiveCredentialFromOpenId4VciOffer fl =
     (case assertState RetrievingCredential fl of
        Inl e \<Rightarrow> retrieveCredentials_catch e fl
      | Inr _ \<Rightarrow>
          (case accessToken fl of
             None \<Rightarrow>
               retrieveCredentials_catch
                 (JsError ''Expected accessToken be defined in state retrieve-credential'') fl
           | Some token \<Rightarrow>
               (let credentialConfigurationIdsToRequest =
                      map offered_id (offeredCredentials (resolvedCredentialOffer fl))
                in case receiveCredentialFromOpenId4VciOffer
                          \<lparr>req_accessToken = token,
                           req_resolvedCredentialOffer = resolvedCredentialOffer fl,
                           req_credentialConfigurationIdsToRequest =
                             credentialConfigurationIdsToRequest,
                           req_clientId = CLIENT_ID\<rparr> of
                     Inl e \<Rightarrow> retrieveCredentials_catch e fl
                   | Inr credentialRecords \<Rightarrow>
                       (case check_record_types credentialRecords of
                          Inl e \<Rightarrow> retrieveCredentials_catch e fl
                        | Inr _ \<Rightarrow> (Inr credentialRecords, fl)))))"

section \<open>Properties of the secure unlock hook\<close>

text \<open>
  C7. Called from a render in the acquired-wallet-key state, \<^verbatim>\<open>setWalletKeyInvalid\<close>
  leaves the hook locked with the wallet key and the unlock method cleared, and when the
  key had been acquired with biometrics, further biometric attempts are switched off.
\<close>

theorem setWalletKeyInvalid_locks:
  assumes "useSecureUnlockState s = Inr (ReturnWalletKeyAcquired key method)"
  shows "state (setWalletKeyInvalid method s) = Locked
         \<and> walletKey (setWalletKeyInvalid method s) = None
         \<and> unlockMethod (setWalletKeyInvalid method s) = None
         \<and> useSecureUnlockState (setWalletKeyInvalid method s)
             = Inr (ReturnLocked (isUnlocking s)
                      (if method = Biometrics then False
                       else canTryUnlockingUsingBiometrics s))
         \<and> fst (step SetWalletKeyInvalid s) = setWalletKeyInvalid method s"
  using assms
  by (simp add: setWalletKeyInvalid_def useSecureUnlockState_def step_def quiet_def Let_def)

theorem setWalletKeyInvalid_locks_witness:
  "useSecureUnlockState
     ((initial_vars :: unit unlock_vars)
        \<lparr>state := AcquiredWalletKey, walletKey := Some ''key'',
         unlockMethod := Some Biometrics\<rparr>)
     = Inr (ReturnWalletKeyAcquired ''key'' Biometrics)
   \<and> useSecureUnlockState
       (setWalletKeyInvalid Biometrics
          ((initial_vars :: unit unlock_vars)
             \<lparr>state := AcquiredWalletKey, walletKey := Some ''key'',
              unlockMethod := Some Biometrics\<rparr>))
     = Inr (ReturnLocked False False)"
proof -
  let ?s = "(initial_vars :: unit unlock_vars)
              \<lparr>state := AcquiredWalletKey, walletKey := Some ''key'',
               unlockMethod := Some Biometrics\<rparr>"
  have h: "useSecureUnlockState ?s = Inr (ReturnWalletKeyAcquired ''key'' Biometrics)"
    by (simp add: useSecureUnlockState_def initial_vars_def)
  from setWalletKeyInvalid_locks [OF h] h show ?thesis
    by (simp add: initial_vars_def)
qed

text \<open>
  C4. Called from a locked render that still allows biometrics, with the store's
  biometric retrieval failing with reason \<^verbatim>\<open>userCancelled\<close>,
  \<^verbatim>\<open>tryUnlockingUsingBiometrics\<close> switches further biometric attempts off whatever
  attempt count its closure captured, returns null and leaves the hook locked (and no
  longer unlocking).
\<close>

theorem tryUnlockingUsingBiometrics_userCancelled:
  assumes "state s = Locked" and "canTryUnlockingUsingBiometrics s"
  shows "result (tryUnlockingUsingBiometrics (canTryUnlockingUsingBiometrics s) attempts
                   (Inl (KeychainError ''userCancelled'')) s) = Inr None
         \<and> useSecureUnlockState
             (vars (tryUnlockingUsingBiometrics (canTryUnlockingUsingBiometrics s) attempts
                      (Inl (KeychainError ''userCancelled'')) s))
             = Inr (ReturnLocked False False)
         \<and> fst (step (TryUnlockingUsingBiometrics (Inl (KeychainError ''userCancelled''))) s)
             = vars (tryUnlockingUsingBiometrics (canTryUnlockingUsingBiometrics s)
                       (biometricsUnlockAttempts s)
                       (Inl (KeychainError ''userCancelled'')) s)"
  using assms
  by (simp add: tryUnlockingUsingBiometrics_def useSecureUnlockState_def step_def
      effects_def isUserCancelled_def Let_def)

theorem tryUnlockingUsingBiometrics_userCancelled_witness:
  "useSecureUnlockState
     (vars (tryUnlockingUsingBiometrics True 0 (Inl (KeychainError ''userCancelled''))
              ((initial_vars :: unit unlock_vars)\<lparr>state := Locked\<rparr>)))
     = Inr (ReturnLocked False False)"
proof -
  let ?s = "(initial_vars :: unit unlock_vars)\<lparr>state := Locked\<rparr>"
  have h1: "state ?s = Locked" by simp
  have h2: "canTryUnlockingUsingBiometrics ?s" by (simp add: initial_vars_def)
  from tryUnlockingUsingBiometrics_userCancelled [OF h1 h2, of 0] show ?thesis
    by (simp add: initial_vars_def)
qed

text \<open>
  C10. Called from a locked render that still allows biometrics, with the store's
  biometric retrieval completing without a key (null, or the empty string),
  \<^verbatim>\<open>tryUnlockingUsingBiometrics\<close> returns that same value, the hook stays locked, the
  attempt counter is one higher and biometric attempts stay allowed, whatever attempt
  count its closure captured.
\<close>

theorem tryUnlockingUsingBiometrics_no_key:
  assumes "state s = Locked" and "canTryUnlockingUsingBiometrics s" and "\<not> truthy key"
  shows "result (tryUnlockingUsingBiometrics (canTryUnlockingUsingBiometrics s) attempts
                   (Inr key) s) = Inr key
         \<and> state (vars (tryUnlockingUsingBiometrics (canTryUnlockingUsingBiometrics s)
                          attempts (Inr key) s)) = Locked
         \<and> biometricsUnlockAttempts
             (vars (tryUnlockingUsingBiometrics (canTryUnlockingUsingBiometrics s)
                      attempts (Inr key) s)) = biometricsUnlockAttempts s + 1
         \<and> canTryUnlockingUsingBiometrics
             (vars (tryUnlockingUsingBiometrics (canTryUnlockingUsingBiometrics s)
                      attempts (Inr key) s))
         \<and> vars (tryUnlockingUsingBiometrics (canTryUnlockingUsingBiometrics s)
                   attempts (Inr key) s)
             = s\<lparr>biometricsUnlockAttempts := biometricsUnlockAttempts s + 1,
                 isUnlocking := False\<rparr>"
  using assms
  by (simp add: tryUnlockingUsingBiometrics_def Let_def)

theorem tryUnlockingUsingBiometrics_no_key_witness:
  "\<not> truthy None
   \<and> biometricsUnlockAttempts
       (vars (tryUnlockingUsingBiometrics True 7 (Inr None)
                ((initial_vars :: unit unlock_vars)
                   \<lparr>state := Locked, biometricsUnlockAttempts := 7\<rparr>))) = 8
   \<and> canTryUnlockingUsingBiometrics
       (vars (tryUnlockingUsingBiometrics True 7 (Inr None)
                ((initial_vars :: unit unlock_vars)
                   \<lparr>state := Locked, biometricsUnlockAttempts := 7\<rparr>)))"
proof -
  let ?s = "(initial_vars :: unit unlock_vars)
              \<lparr>state := Locked, biometricsUnlockAttempts := 7\<rparr>"
  have h1: "state ?s = Locked" by simp
  have h2: "canTryUnlockingUsingBiometrics ?s" by (simp add: initial_vars_def)
  have h3: "\<not> truthy None" by (simp add: truthy_def)
  from tryUnlockingUsingBiometrics_no_key [OF h1 h2 h3, of 7] h3 show ?thesis
    by (simp add: initial_vars_def)
qed

text \<open>
  C6. Called from the locked state, \<^verbatim>\<open>unlockUsingPin\<close> either fails, when the store's
  PIN-based retrieval throws: the error reaches the caller and the hook stays locked; or
  succeeds: the hook holds the key with unlock method pin in the acquired-wallet-key
  state and the key is returned. Either way \<^verbatim>\<open>isUnlocking\<close> is false afterwards.
\<close>

theorem unlockUsingPin_outcomes:
  assumes "state s = Locked"
  shows "(case answer of
            Inl e \<Rightarrow>
              result (unlockUsingPin pin answer s) = Inl e
              \<and> state (vars (unlockUsingPin pin answer s)) = Locked
              \<and> vars (unlockUsingPin pin answer s) = s\<lparr>isUnlocking := False\<rparr>
          | Inr key \<Rightarrow>
              result (unlockUsingPin pin answer s) = Inr key
              \<and> state (vars (unlockUsingPin pin answer s)) = AcquiredWalletKey
              \<and> unlockMethod (vars (unlockUsingPin pin answer s)) = Some Pin
              \<and> walletKey (vars (unlockUsingPin pin answer s)) = Some key)
         \<and> isUnlocking (vars (unlockUsingPin pin answer s)) = False
         \<and> fst (step (UnlockUsingPin pin answer) s) = vars (unlockUsingPin pin answer s)"
  using assms
  by (simp add: unlockUsingPin_def useSecureUnlockState_def step_def effects_def Let_def
      split: sum.splits)

theorem unlockUsingPin_outcomes_witness:
  "result (unlockUsingPin ''0000'' (Inl (OtherError ''wrong pin''))
             ((initial_vars :: unit unlock_vars)\<lparr>state := Locked\<rparr>))
     = Inl (OtherError ''wrong pin'')
   \<and> useSecureUnlockState
       (vars (unlockUsingPin ''0000'' (Inl (OtherError ''wrong pin''))
                ((initial_vars :: unit unlock_vars)\<lparr>state := Locked\<rparr>)))
     = Inr (ReturnLocked False True)
   \<and> useSecureUnlockState
       (vars (unlockUsingPin ''1234'' (Inr ''key'')
                ((initial_vars :: unit unlock_vars)\<lparr>state := Locked\<rparr>)))
     = Inr (ReturnWalletKeyAcquired ''key'' Pin)"
proof -
  let ?s = "(initial_vars :: unit unlock_vars)\<lparr>state := Locked\<rparr>"
  have h: "state ?s = Locked" by simp
  from unlockUsingPin_outcomes
         [where s = "?s" and answer = "Inl (OtherError ''wrong pin'')" and pin = "''0000''",
          OF h]
       unlockUsingPin_outcomes
         [where s = "?s" and answer = "Inr ''key''" and pin = "''1234''", OF h]
  show ?thesis
    by (simp add: useSecureUnlockState_def initial_vars_def)
qed

text \<open>
  C9. \<^verbatim>\<open>setWalletKeyValid\<close> records the caller's context and moves the hook to unlocked
  before it awaits the store. When the device can use biometrics, the caller enables them
  and \<^verbatim>\<open>storeWalletKey\<close> throws, the error reaches the caller and the hook is unlocked
  all the same: nothing rolls the transition back.
\<close>

theorem setWalletKeyValid_store_failure:
  assumes "useSecureUnlockState s = Inr (ReturnWalletKeyAcquired key method)"
      and "canUseBiometrics s = Some True"
  shows "result (setWalletKeyValid key (Some True) c True (Inl e) s) = Inl e
         \<and> calls (setWalletKeyValid key (Some True) c True (Inl e) s)
             = [StoreWalletKey key]
         \<and> vars (setWalletKeyValid key (Some True) c True (Inl e) s)
             = s\<lparr>ctxt := Some c, state := Unlocked\<rparr>
         \<and> useSecureUnlockState
             (vars (setWalletKeyValid key (Some True) c True (Inl e) s))
             = Inr (ReturnUnlocked method c)
         \<and> step (SetWalletKeyValid c True (Inl e)) s
             = (s\<lparr>ctxt := Some c, state := Unlocked\<rparr>, [StoreWalletKey key])"
  using assms
  by (auto simp add: setWalletKeyValid_def useSecureUnlockState_def step_def effects_def
      Let_def split: SecureUnlockState.splits option.splits if_splits)

theorem setWalletKeyValid_store_failure_witness:
  "useSecureUnlockState
     (vars (setWalletKeyValid ''key'' (Some True) (5::nat) True
              (Inl (OtherError ''keychain unavailable''))
              (initial_vars\<lparr>state := AcquiredWalletKey, walletKey := Some ''key'',
                            canUseBiometrics := Some True, unlockMethod := Some Pin\<rparr>)))
     = Inr (ReturnUnlocked Pin 5)
   \<and> result (setWalletKeyValid ''key'' (Some True) (5::nat) True
               (Inl (OtherError ''keychain unavailable''))
               (initial_vars\<lparr>state := AcquiredWalletKey, walletKey := Some ''key'',
                             canUseBiometrics := Some True, unlockMethod := Some Pin\<rparr>))
     = Inl (OtherError ''keychain unavailable'')"
proof -
  let ?s = "(initial_vars :: nat unlock_vars)
              \<lparr>state := AcquiredWalletKey, walletKey := Some ''key'',
               canUseBiometrics := Some True, unlockMethod := Some Pin\<rparr>"
  have h1: "useSecureUnlockState ?s = Inr (ReturnWalletKeyAcquired ''key'' Pin)"
    by (simp add: useSecureUnlockState_def initial_vars_def)
  have h2: "canUseBiometrics ?s = Some True" by simp
  from setWalletKeyValid_store_failure
         [where s = "?s" and c = 5 and e = "OtherError ''keychain unavailable''", OF h1 h2]
  show ?thesis by blast
qed

text \<open>
  C5. A store call \<^verbatim>\<open>storeWalletKey\<close> is part of a step of the hook exactly when the
  step is \<^verbatim>\<open>setWalletKeyValid\<close> called on an acquired-wallet-key render with
  \<^verbatim>\<open>enableBiometrics\<close> true while \<^verbatim>\<open>canUseBiometrics\<close> (set by the query function at
  initialization) is true, and then it stores the acquired key. So with
  \<^verbatim>\<open>enableBiometrics\<close> false nothing is persisted, and no other operation persists the
  key.
\<close>

theorem storeWalletKey_only_in_setWalletKeyValid:
  "StoreWalletKey k \<in> set (snd (step ev s))
   \<longleftrightarrow> (\<exists>method c a. useSecureUnlockState s = Inr (ReturnWalletKeyAcquired k method)
          \<and> ev = SetWalletKeyValid c True a \<and> canUseBiometrics s = Some True)"
proof (cases "useSecureUnlockState s")
  case (Inl m)
  then show ?thesis by (simp add: step_def quiet_def)
next
  case (Inr view)
  then show ?thesis
    by (cases view; cases ev)
       (auto simp add: step_def quiet_def effects_def queryFn_def setupPin_def
          unlockUsingPin_def tryUnlockingUsingBiometrics_def setWalletKeyValid_def Let_def
          split: sum.splits)
qed

theorem storeWalletKey_only_in_setWalletKeyValid_witness:
  "StoreWalletKey ''key''
     \<in> set (snd (step (SetWalletKeyValid (5::nat) True (Inr ()))
                    (initial_vars\<lparr>state := AcquiredWalletKey, walletKey := Some ''key'',
                                  canUseBiometrics := Some True,
                                  unlockMethod := Some Pin\<rparr>)))
   \<and> StoreWalletKey ''key''
     \<notin> set (snd (step (SetWalletKeyValid (5::nat) False (Inr ()))
                    (initial_vars\<lparr>state := AcquiredWalletKey, walletKey := Some ''key'',
                                  canUseBiometrics := Some True,
                                  unlockMethod := Some Pin\<rparr>)))"
proof -
  let ?s = "(initial_vars :: nat unlock_vars)
              \<lparr>state := AcquiredWalletKey, walletKey := Some ''key'',
               canUseBiometrics := Some True, unlockMethod := Some Pin\<rparr>"
  have h: "useSecureUnlockState ?s = Inr (ReturnWalletKeyAcquired ''key'' Pin)"
    by (simp add: useSecureUnlockState_def initial_vars_def)
  from storeWalletKey_only_in_setWalletKeyValid
         [where s = "?s" and k = "''key''" and ev = "SetWalletKeyValid 5 True (Inr ())"]
       storeWalletKey_only_in_setWalletKeyValid
         [where s = "?s" and k = "''key''" and ev = "SetWalletKeyValid 5 False (Inr ())"]
       h
  show ?thesis by simp
qed

text \<open>
  C8, as the claim states it: \<^verbatim>\<open>reinitialize\<close> is available in every state. It is not:
  the render of the initializing state returns the state tag alone.
\<close>

theorem reinitialize_not_offered_while_initializing:
  "useSecureUnlockState (initial_vars :: unit unlock_vars) = Inr ReturnInitializing
   \<and> Op_reinitialize \<notin> set (operations (ReturnInitializing :: unit SecureUnlockReturn))"
  by (simp add: useSecureUnlockState_def initial_vars_def)

text \<open>
  C8, amended. \<^verbatim>\<open>reinitialize\<close> is offered by every render except the one of the
  initializing state. Applied to any values of the hook's variables it yields the initial
  ones: state initializing, no wallet key, no unlock method, no context, attempt counter
  0, biometric attempts allowed, biometric capability unknown, not unlocking. Applying it
  twice yields what applying it once yields. A call through the hook resets the variables
  wherever the render offers the operation.
\<close>

theorem reinitialize_resets:
  "reinitialize s = initial_vars
   \<and> reinitialize (reinitialize s) = reinitialize s
   \<and> (Op_reinitialize \<in> set (operations v)) = (v \<noteq> ReturnInitializing)
   \<and> fst (step Reinitialize s)
       = (case useSecureUnlockState s of
            Inl _ \<Rightarrow> s
          | Inr view \<Rightarrow> if view = ReturnInitializing then s else initial_vars)"
proof -
  have a: "reinitialize t = initial_vars" for t :: "'a unlock_vars"
    by (simp add: reinitialize_def initial_vars_def)
  have b: "(Op_reinitialize \<in> set (operations v)) = (v \<noteq> ReturnInitializing)"
    by (cases v) simp_all
  have c: "fst (step Reinitialize s)
       = (case useSecureUnlockState s of
            Inl _ \<Rightarrow> s
          | Inr view \<Rightarrow> if view = ReturnInitializing then s else initial_vars)"
  proof (cases "useSecureUnlockState s")
    case (Inl m)
    then show ?thesis by (simp add: step_def quiet_def)
  next
    case (Inr view)
    then show ?thesis by (cases view) (simp_all add: step_def quiet_def a)
  qed
  from a b c show ?thesis by simp
qed

subsection \<open>Repeated biometric failures\<close>

text \<open>One failed biometric attempt that is not a cancellation, on a locked hook: the
  counter goes up by one, and biometrics stay allowed exactly when the counter \<^emph>\<open>before\<close>
  the call was at most 3, because the closure tests the count of its render.\<close>

lemma step_biometric_failure:
  assumes "\<not> isUserCancelled e" and "state s = Locked"
  shows "fst (step (TryUnlockingUsingBiometrics (Inl e)) s)
         = (if canTryUnlockingUsingBiometrics s
            then s\<lparr>biometricsUnlockAttempts := biometricsUnlockAttempts s + 1,
                   canTryUnlockingUsingBiometrics := biometricsUnlockAttempts s \<le> 3,
                   isUnlocking := False\<rparr>
            else s)"
  using assms
  by (auto simp add: step_def useSecureUnlockState_def effects_def
      tryUnlockingUsingBiometrics_def Let_def)

text \<open>After \<open>k\<close> such failures in a row biometrics are still allowed exactly when they
  were allowed before and the counter, started at \<open>n\<close>, satisfies \<open>n + k \<le> 4\<close> (or no
  call was made): from a counter of 0 the fifth failure is the one that revokes.\<close>

lemma run_biometric_failures:
  assumes "\<not> isUserCancelled e" and "state s = Locked"
  shows "state (run (replicate k (TryUnlockingUsingBiometrics (Inl e))) s) = Locked
         \<and> canTryUnlockingUsingBiometrics
             (run (replicate k (TryUnlockingUsingBiometrics (Inl e))) s)
           = (canTryUnlockingUsingBiometrics s
              \<and> (k = 0 \<or> biometricsUnlockAttempts s + k \<le> 4))"
  using assms
proof (induction k arbitrary: s)
  case 0
  then show ?case by simp
next
  case (Suc k)
  let ?s' = "fst (step (TryUnlockingUsingBiometrics (Inl e)) s)"
  have st: "state ?s' = Locked"
    using Suc.prems by (simp add: step_biometric_failure)
  from Suc.IH [OF Suc.prems(1) st] Suc.prems show ?case
    by (auto simp add: step_biometric_failure)
qed

text \<open>Once biometric attempts are switched off outside the initializing state, no step
  other than \<^verbatim>\<open>reinitialize\<close> switches them on again, and none reaches the initializing
  state, where the query function would.\<close>

lemma step_keeps_revoked:
  assumes "\<not> canTryUnlockingUsingBiometrics s" and "state s \<noteq> Initializing"
      and "ev \<noteq> Reinitialize"
  shows "\<not> canTryUnlockingUsingBiometrics (fst (step ev s))
         \<and> state (fst (step ev s)) \<noteq> Initializing"
proof (cases "useSecureUnlockState s")
  case (Inl m)
  then show ?thesis using assms by (simp add: step_def quiet_def)
next
  case (Inr view)
  then show ?thesis using assms
    by (cases view; cases ev)
       (auto simp add: step_def quiet_def effects_def queryFn_def setupPin_def
          unlockUsingPin_def tryUnlockingUsingBiometrics_def setWalletKeyValid_def
          setWalletKeyInvalid_def lock_def useSecureUnlockState_def Let_def
          split: sum.splits SecureUnlockState.splits option.splits if_splits)
qed

lemma run_keeps_revoked:
  assumes "\<not> canTryUnlockingUsingBiometrics s" and "state s \<noteq> Initializing"
      and "Reinitialize \<notin> set evs"
  shows "\<not> canTryUnlockingUsingBiometrics (run evs s) \<and> state (run evs s) \<noteq> Initializing"
  using assms
proof (induction evs arbitrary: s)
  case Nil
  then show ?case by simp
next
  case (Cons ev evs)
  from Cons.prems have "ev \<noteq> Reinitialize" and "Reinitialize \<notin> set evs" by auto
  with Cons.prems step_keeps_revoked [of s ev] Cons.IH [of "fst (step ev s)"]
  show ?case by simp
qed

text \<open>
  C1 claims that the fourth consecutive biometric failure that is not a cancellation
  switches biometric attempts off. In a fresh session (initialization finds a salt and a
  device that can use biometrics) the code leaves them allowed after four such failures,
  with the attempt counter at 4 and the hook locked; the fifth failure switches them
  off. The test \<^verbatim>\<open>biometricsUnlockAttempts > 3\<close> reads the counter as it was before the
  call's own increment.
\<close>

theorem four_biometric_failures_keep_biometrics_allowed:
  "canTryUnlockingUsingBiometrics
     (run [Initialize (Inr (Some ''salt'')) (Inr True),
           TryUnlockingUsingBiometrics (Inl (KeychainError ''authenticationFailed'')),
           TryUnlockingUsingBiometrics (Inl (KeychainError ''authenticationFailed'')),
           TryUnlockingUsingBiometrics (Inl (KeychainError ''authenticationFailed'')),
           TryUnlockingUsingBiometrics (Inl (KeychainError ''authenticationFailed''))]
        (initial_vars :: unit unlock_vars))
   \<and> biometricsUnlockAttempts
       (run [Initialize (Inr (Some ''salt'')) (Inr True),
             TryUnlockingUsingBiometrics (Inl (KeychainError ''authenticationFailed'')),
             TryUnlockingUsingBiometrics (Inl (KeychainError ''authenticationFailed'')),
             TryUnlockingUsingBiometrics (Inl (KeychainError ''authenticationFailed'')),
             TryUnlockingUsingBiometrics (Inl (KeychainError ''authenticationFailed''))]
          (initial_vars :: unit unlock_vars)) = 4
   \<and> state
       (run [Initialize (Inr (Some ''salt'')) (Inr True),
             TryUnlockingUsingBiometrics (Inl (KeychainError ''authenticationFailed'')),
             TryUnlockingUsingBiometrics (Inl (KeychainError ''authenticationFailed'')),
             TryUnlockingUsingBiometrics (Inl (KeychainError ''authenticationFailed'')),
             TryUnlockingUsingBiometrics (Inl (KeychainError ''authenticationFailed''))]
          (initial_vars :: unit unlock_vars)) = Locked
   \<and> \<not> canTryUnlockingUsingBiometrics
       (run [Initialize (Inr (Some ''salt'')) (Inr True),
             TryUnlockingUsingBiometrics (Inl (KeychainError ''authenticationFailed'')),
             TryUnlockingUsingBiometrics (Inl (KeychainError ''authenticationFailed'')),
             TryUnlockingUsingBiometrics (Inl (KeychainError ''authenticationFailed'')),
             TryUnlockingUsingBiometrics (Inl (KeychainError ''authenticationFailed'')),
             TryUnlockingUsingBiometrics (Inl (KeychainError ''authenticationFailed''))]
          (initial_vars :: unit unlock_vars))"
  by (simp add: step_def useSecureUnlockState_def effects_def queryFn_def truthy_def
      tryUnlockingUsingBiometrics_def isUserCancelled_def initial_vars_def Let_def)

section \<open>Properties of the credential issuance flow\<close>

lemma check_record_types_unexpected:
  "\<exists>r\<in>set rs. unexpected_type r \<Longrightarrow>
   \<exists>r\<in>set rs. unexpected_type r
     \<and> check_record_types rs = Inl (JsError (''Unexpected record type '' @ recordType r))"
  by (induction rs) auto

text \<open>
  C2. When \<^verbatim>\<open>retrieveCredentials\<close> is called in the retrieve-credential state (the
  access token is there, so the protocol client is asked) and the client throws a
  \<^verbatim>\<open>BiometricAuthenticationError\<close>, that error is thrown on to the caller and the flow
  is exactly as before: still in the retrieve-credential state, not in the error state,
  with the same access token, so that calling again is the same call.
\<close>

theorem retrieveCredentials_biometric_error:
  assumes "currentState fl = RetrievingCredential"
      and "accessToken fl = Some token"
      and "client \<lparr>req_accessToken = token,
                   req_resolvedCredentialOffer = resolvedCredentialOffer fl,
                   req_credentialConfigurationIdsToRequest =
                     map offered_id (offeredCredentials (resolvedCredentialOffer fl)),
                   req_clientId = CLIENT_ID\<rparr> = Inl BiometricAuthenticationError"
  shows "retrieveCredentials CLIENT_ID client fl = (Inl BiometricAuthenticationError, fl)
         \<and> currentState (snd (retrieveCredentials CLIENT_ID client fl)) = RetrievingCredential
         \<and> accessToken (snd (retrieveCredentials CLIENT_ID client fl)) = Some token
         \<and> retrieveCredentials CLIENT_ID client'
             (snd (retrieveCredentials CLIENT_ID client fl))
             = retrieveCredentials CLIENT_ID client' fl"
  using assms
  by (simp add: retrieveCredentials_def assertState_def retrieveCredentials_catch_def)

theorem retrieveCredentials_biometric_error_witness:
  "retrieveCredentials ''client'' (\<lambda>_. Inl BiometricAuthenticationError)
     \<lparr>currentState = RetrievingCredential, accessToken = Some (7::nat),
      resolvedCredentialOffer = \<lparr>offeredCredentials = [\<lparr>offered_id = ''pid-sd-jwt''\<rparr>]\<rparr>\<rparr>
   = (Inl BiometricAuthenticationError,
      \<lparr>currentState = RetrievingCredential, accessToken = Some 7,
       resolvedCredentialOffer = \<lparr>offeredCredentials = [\<lparr>offered_id = ''pid-sd-jwt''\<rparr>]\<rparr>\<rparr>)"
proof -
  let ?fl = "\<lparr>currentState = RetrievingCredential, accessToken = Some (7::nat),
      resolvedCredentialOffer = \<lparr>offeredCredentials = [\<lparr>offered_id = ''pid-sd-jwt''\<rparr>]\<rparr>\<rparr>"
  have h1: "currentState ?fl = RetrievingCredential" by simp
  have h2: "accessToken ?fl = Some 7" by simp
  from retrieveCredentials_biometric_error
         [where fl = "?fl" and client = "\<lambda>_. Inl BiometricAuthenticationError"
            and CLIENT_ID = "''client''", OF h1 h2]
  show ?thesis by simp
qed

text \<open>
  C3. When \<^verbatim>\<open>retrieveCredentials\<close> is called in the retrieve-credential state and the
  protocol client returns records of which one has a type that is neither
  \<^verbatim>\<open>SdJwtVcRecord\<close> nor \<^verbatim>\<open>MdocRecord\<close>, the call throws an error naming such a record's
  type, and the flow the caller is left with is the one \<^verbatim>\<open>handleError\<close> made of it: in
  the error state.
\<close>

theorem retrieveCredentials_unexpected_type:
  assumes "currentState fl = RetrievingCredential"
      and "accessToken fl = Some token"
      and "client \<lparr>req_accessToken = token,
                   req_resolvedCredentialOffer = resolvedCredentialOffer fl,
                   req_credentialConfigurationIdsToRequest =
                     map offered_id (offeredCredentials (resolvedCredentialOffer fl)),
                   req_clientId = CLIENT_ID\<rparr> = Inr records"
      and "\<exists>r\<in>set records. unexpected_type r"
  shows "\<exists>r\<in>set records. unexpected_type r
           \<and> fst (retrieveCredentials CLIENT_ID client fl)
               = Inl (JsError (''Unexpected record type '' @ recordType r))
           \<and> snd (retrieveCredentials CLIENT_ID client fl)
               = handleError (JsError (''Unexpected record type '' @ recordType r)) fl
           \<and> currentState (snd (retrieveCredentials CLIENT_ID client fl)) = Error"
proof -
  from check_record_types_unexpected [OF assms(4)] obtain r where
    r: "r \<in> set records" "unexpected_type r"
       "check_record_types records = Inl (JsError (''Unexpected record type '' @ recordType r))"
    by blast
  have "fst (retrieveCredentials CLIENT_ID client fl)
               = Inl (JsError (''Unexpected record type '' @ recordType r))
           \<and> snd (retrieveCredentials CLIENT_ID client fl)
               = handleError (JsError (''Unexpected record type '' @ recordType r)) fl
           \<and> currentState (snd (retrieveCredentials CLIENT_ID client fl)) = Error"
    using assms(1-3) r(3)
    by (simp add: retrieveCredentials_def assertState_def retrieveCredentials_catch_def
        handleError_def)
  with r(1,2) show ?thesis by blast
qed

theorem retrieveCredentials_unexpected_type_witness:
  "(\<exists>r\<in>set [\<lparr>recordType = ''SdJwtVcRecord'', recordId = ''a''\<rparr>,
              \<lparr>recordType = ''W3cCredentialRecord'', recordId = ''b''\<rparr>]. unexpected_type r)
   \<and> retrieveCredentials ''client''
       (\<lambda>_. Inr [\<lparr>recordType = ''SdJwtVcRecord'', recordId = ''a''\<rparr>,
                 \<lparr>recordType = ''W3cCredentialRecord'', recordId = ''b''\<rparr>])
       \<lparr>currentState = RetrievingCredential, accessToken = Some (7::nat),
        resolvedCredentialOffer = \<lparr>offeredCredentials = [\<lparr>offered_id = ''pid-sd-jwt''\<rparr>]\<rparr>\<rparr>
     = (Inl (JsError ''Unexpected record type W3cCredentialRecord''),
        \<lparr>currentState = Error, accessToken = Some 7,
         resolvedCredentialOffer = \<lparr>offeredCredentials = [\<lparr>offered_id = ''pid-sd-jwt''\<rparr>]\<rparr>\<rparr>)"
proof -
  let ?fl = "\<lparr>currentState = RetrievingCredential, accessToken = Some (7::nat),
      resolvedCredentialOffer = \<lparr>offeredCredentials = [\<lparr>offered_id = ''pid-sd-jwt''\<rparr>]\<rparr>\<rparr>"
  let ?recs = "[\<lparr>recordType = ''SdJwtVcRecord'', recordId = ''a''\<rparr>,
              \<lparr>recordType = ''W3cCredentialRecord'', recordId = ''b''\<rparr>]"
  have h1: "currentState ?fl = RetrievingCredential" by simp
  have h2: "accessToken ?fl = Some 7" by simp
  have h3: "(\<lambda>_. Inr ?recs)
              \<lparr>req_accessToken = (7::nat),
               req_resolvedCredentialOffer = resolvedCredentialOffer ?fl,
               req_credentialConfigurationIdsToRequest =
                 map offered_id (offeredCredentials (resolvedCredentialOffer ?fl)),
               req_clientId = ''client''\<rparr>
            = (Inr ?recs :: flow_error + credential_record list)"
    by simp
  have h4: "\<exists>r\<in>set ?recs. unexpected_type r" by (simp add: unexpected_type_def)
  from retrieveCredentials_unexpected_type [OF h1 h2 h3 h4] h4
  show ?thesis
    by (auto simp add: unexpected_type_def handleError_def prod_eq_iff)
qed

end
